theory Spec2Isabelle
  imports Main "HOL-Library.Word" "HOL-Library.Monad_Syntax"
begin

section \<open>The C library: formatted output into a byte buffer\<close>

text \<open>
  The firmware (\<^verbatim>\<open>src/Watch/src/main.cpp\<close>) formats the time with
  \<^verbatim>\<open>snprintf(buf, sizeof(buf), "%02d:%02d:%02d", now.hour, now.minute, now.second)\<close>.
  The part of \<^verbatim>\<open>printf\<close> that this format string exercises is modelled here: literal
  characters and the conversion \<^verbatim>\<open>%d\<close> with the optional flag \<^verbatim>\<open>0\<close> and an optional
  decimal minimum field width. A C string is a \<open>char list\<close> of bytes; \<open>NUL\<close> terminates it.
\<close>

definition NUL :: char where
  "NUL = CHR 0x00"

definition digit_char :: "nat \<Rightarrow> char" where
  "digit_char d = ''0123456789'' ! d"

definition is_digit :: "char \<Rightarrow> bool" where
  "is_digit c = (c \<in> set ''0123456789'')"

definition digit_val :: "char \<Rightarrow> nat" where
  "digit_val c = of_char c - of_char CHR ''0''"

text \<open>The decimal digits of a natural number, most significant first, no leading zero.\<close>

fun dec_digits :: "nat \<Rightarrow> string" where
  "dec_digits n =
     (if n < 10 then [digit_char n]
      else dec_digits (n div 10) @ [digit_char (n mod 10)])"

declare dec_digits.simps [simp del]

text \<open>
  The conversion \<^verbatim>\<open>%d\<close> of one \<^verbatim>\<open>int\<close> argument. The width is a minimum: the sign and all
  digits are always produced, and padding is added only when they are fewer than the
  width. With the flag \<^verbatim>\<open>0\<close> the padding is zeros after the sign, otherwise blanks before.
\<close>

definition conv_d :: "bool \<Rightarrow> nat \<Rightarrow> int \<Rightarrow> string" where
  "conv_d zero_flag width v =
     (let sign = (if v < 0 then ''-'' else []);
          ds = dec_digits (nat \<bar>v\<bar>);
          len = length sign + length ds;
          pad = (if len < width then width - len else 0)
      in if zero_flag then sign @ replicate pad CHR ''0'' @ ds
         else replicate pad CHR '' '' @ sign @ ds)"

text \<open>
  The scanner of the format string: \<open>Plain\<close> outside a conversion specification,
  \<open>Spec z w\<close> inside one, after \<^verbatim>\<open>%\<close>, with the zero flag and the width read so far.
  A specification this model does not cover, or a missing argument, is \<open>None\<close>.
\<close>

datatype fmt_state = Plain | Spec bool nat

fun format_out :: "fmt_state \<Rightarrow> string \<Rightarrow> int list \<Rightarrow> string option" where
  "format_out Plain [] args = Some []"
| "format_out (Spec z w) [] args = None"
| "format_out Plain (c # fs) args =
     (if c = CHR ''%'' then format_out (Spec False 0) fs args
      else map_option ((#) c) (format_out Plain fs args))"
| "format_out (Spec z w) (c # fs) args =
     (if c = CHR ''0'' \<and> w = 0 then format_out (Spec True 0) fs args
      else if is_digit c then format_out (Spec z (10 * w + digit_val c)) fs args
      else if c = CHR ''d'' then
        (case args of
           [] \<Rightarrow> None
         | v # rest \<Rightarrow> map_option ((@) (conv_d z w v)) (format_out Plain fs rest))
      else None)"

text \<open>
  The bytes \<^verbatim>\<open>snprintf\<close> stores for the complete output \<open>out\<close> and the size argument
  \<open>n > 0\<close>: at most \<open>n - 1\<close> characters of the output and the terminator.
\<close>

definition snprintf_stored :: "nat \<Rightarrow> string \<Rightarrow> string" where
  "snprintf_stored n out = take (n - 1) out @ [NUL]"

text \<open>
  \<^verbatim>\<open>snprintf(buf, n, fmt, args)\<close>: the buffer after the call (the source discards the
  returned count). The stored bytes overwrite the front of the buffer, the bytes behind
  them stay. Storing more bytes than the buffer has is a buffer overflow: \<open>None\<close>.
\<close>

definition snprintf :: "string \<Rightarrow> nat \<Rightarrow> string \<Rightarrow> int list \<Rightarrow> string option" where
  "snprintf buf n fmt args =
     (case format_out Plain fmt args of
        None \<Rightarrow> None
      | Some out \<Rightarrow>
          if n = 0 then Some buf
          else
            let stored = snprintf_stored n out
            in if length stored \<le> length buf
               then Some (stored @ drop (length stored) buf)
               else None)"

text \<open>
  Reading a buffer as a C string: the bytes before the first \<open>NUL\<close>. A buffer without
  terminator would be read past its end: \<open>None\<close>.
\<close>

definition c_str :: "string \<Rightarrow> string option" where
  "c_str buf = (if NUL \<in> set buf then Some (takeWhile (\<lambda>c. c \<noteq> NUL) buf) else None)"

section \<open>The peripherals and the graphics library\<close>

text \<open>
  Modelled from the spec: the declarations of \<^verbatim>\<open>LilyGoLib\<close> and \<^verbatim>\<open>RTC_Date\<close> are vendor
  headers, not part of the source. The spec gives the clock reading as hour, minute and
  second, integers; each is passed to \<^verbatim>\<open>%d\<close>, so as a C \<^verbatim>\<open>int\<close>, 32 bits wide on
  this target and read signed.
\<close>

type_synonym c_int = "32 word"

record RTC_Date =
  hour :: c_int
  minute :: c_int
  second :: c_int

text \<open>
  What the board answers: the result of \<^verbatim>\<open>watch.begin()\<close>, the result of
  \<^verbatim>\<open>psramFound()\<close>, whether \<^verbatim>\<open>watch.motor\<close> is a non-null handle, whether a pulse asked of
  the motor actually succeeds (\<^verbatim>\<open>onec\<close> reports nothing the source reads), and the
  value the \<open>k\<close>-th call of \<^verbatim>\<open>watch.rtc->getDateTime()\<close> returns.
\<close>

record board =
  begin_ok :: bool
  psram_found :: bool
  motor_present :: bool
  motor_pulse_ok :: bool
  rtc_time :: "nat \<Rightarrow> RTC_Date"

text \<open>
  The widgets of the active screen, each under its handle (the \<^verbatim>\<open>lv_obj_t*\<close>): the
  part of LVGL's state the firmware changes.
\<close>

datatype lv_font = lv_font_default | lv_font_montserrat_28

record lv_label =
  label_text :: string
  label_font :: lv_font
  label_centered :: bool

text \<open>Every call the firmware makes on the outside world, in the order it makes them.\<close>

datatype event =
    Serial_begin nat
  | Serial_println string
  | Watch_begin
  | Motor_onec nat
  | Lv_obj_clean
  | Lv_label_create nat
  | Lv_obj_set_style_text_font nat lv_font
  | Lv_obj_center nat
  | Lv_label_set_text nat string
  | Rtc_getDateTime RTC_Date
  | Snprintf
  | Lv_timer_handler
  | Delay nat

text \<open>
  Where control is: in \<^verbatim>\<open>setup()\<close>, in the \<^verbatim>\<open>while (true) delay(100)\<close> of its failure
  branch, or in the repeated \<^verbatim>\<open>loop()\<close>.
\<close>

datatype control = In_setup | In_stall | In_loop

text \<open>
  The state of the program: the global \<^verbatim>\<open>clock_label\<close> (\<open>None\<close> is the null pointer),
  the static \<^verbatim>\<open>buf\<close>, the screen's widgets and the next free handle, the number of
  clock readings taken so far, and the calls made so far.
\<close>

record machine =
  control :: control
  clock_label :: "nat option"
  buf :: string
  screen :: "(nat \<times> lv_label) list"
  lv_next :: nat
  rtc_reads :: nat
  trace :: "event list"

definition power_on :: machine where
  "power_on =
     \<lparr>control = In_setup, clock_label = None, buf = replicate 16 NUL,
      screen = [], lv_next = 0, rtc_reads = 0, trace = []\<rparr>"

definition emit :: "event \<Rightarrow> machine \<Rightarrow> machine" where
  "emit e s = s\<lparr>trace := trace s @ [e]\<rparr>"

text \<open>\<^verbatim>\<open>lv_obj_clean(lv_scr_act())\<close> deletes every child of the active screen.\<close>

definition lv_obj_clean :: "machine \<Rightarrow> machine" where
  "lv_obj_clean s = emit Lv_obj_clean (s\<lparr>screen := []\<rparr>)"

text \<open>
  \<^verbatim>\<open>lv_label_create(lv_scr_act())\<close> adds a label with LVGL's defaults and returns its
  handle. Allocation failure inside LVGL is not modelled.
\<close>

definition lv_label_create :: "machine \<Rightarrow> nat \<times> machine" where
  "lv_label_create s =
     (let h = lv_next s;
          fresh = \<lparr>label_text = ''Text'', label_font = lv_font_default, label_centered = False\<rparr>
      in (h, emit (Lv_label_create h)
               (s\<lparr>screen := screen s @ [(h, fresh)], lv_next := Suc h\<rparr>)))"

definition lv_modify :: "nat \<Rightarrow> (lv_label \<Rightarrow> lv_label) \<Rightarrow> (nat \<times> lv_label) list \<Rightarrow> (nat \<times> lv_label) list" where
  "lv_modify h f ws = map (\<lambda>(k, l). if k = h then (k, f l) else (k, l)) ws"

text \<open>
  The three calls on a widget. A null handle, or a handle of no widget of the screen,
  is a fault of the program: \<open>None\<close>.
\<close>

definition lv_call :: "nat option \<Rightarrow> (nat \<Rightarrow> event) \<Rightarrow> (lv_label \<Rightarrow> lv_label) \<Rightarrow> machine \<Rightarrow> machine option" where
  "lv_call p ev f s =
     (case p of
        None \<Rightarrow> None
      | Some h \<Rightarrow>
          if h \<in> fst ` set (screen s)
          then Some (emit (ev h) (s\<lparr>screen := lv_modify h f (screen s)\<rparr>))
          else None)"

definition lv_obj_set_style_text_font :: "nat option \<Rightarrow> lv_font \<Rightarrow> machine \<Rightarrow> machine option" where
  "lv_obj_set_style_text_font p font s =
     lv_call p (\<lambda>h. Lv_obj_set_style_text_font h font) (\<lambda>l. l\<lparr>label_font := font\<rparr>) s"

definition lv_obj_center :: "nat option \<Rightarrow> machine \<Rightarrow> machine option" where
  "lv_obj_center p s = lv_call p Lv_obj_center (\<lambda>l. l\<lparr>label_centered := True\<rparr>) s"

definition lv_label_set_text :: "nat option \<Rightarrow> string \<Rightarrow> machine \<Rightarrow> machine option" where
  "lv_label_set_text p txt s =
     lv_call p (\<lambda>h. Lv_label_set_text h txt) (\<lambda>l. l\<lparr>label_text := txt\<rparr>) s"

section \<open>The firmware: setup and loop\<close>

text \<open>The placeholder \<^verbatim>\<open>"Starting..."\<close> with the ellipsis as its three UTF-8 bytes.\<close>

definition placeholder :: string where
  "placeholder = ''Starting'' @ [CHR 0xE2, CHR 0x80, CHR 0xA6]"

text \<open>
  \<^verbatim>\<open>setup()\<close>, named \<open>setup_fw\<close> here since \<open>setup\<close> is a keyword of Isabelle. On the failure of \<^verbatim>\<open>watch.begin()\<close> control enters the stall loop and
  \<^verbatim>\<open>setup\<close> never returns; otherwise it returns and the runtime goes on to \<^verbatim>\<open>loop()\<close>.
\<close>

definition setup_fw :: "board \<Rightarrow> machine \<Rightarrow> machine option" where
  "setup_fw hw s0 = do {
     let s1 = emit (Serial_begin 115200) s0;
     let s2 = emit (Serial_println ''T-Watch S3 (PlatformIO) boot'') s1;
     let s3 = emit Watch_begin s2;
     if \<not> begin_ok hw then
       Some ((emit (Serial_println ''watch.begin() failed'') s3)\<lparr>control := In_stall\<rparr>)
     else do {
       let s4 = (if psram_found hw then emit (Serial_println ''PSRAM OK'') s3 else s3);
       let s5 = (if motor_present hw then emit (Motor_onec 30) s4 else s4);
       let s6 = lv_obj_clean s5;
       let (h, s7) = lv_label_create s6;
       let s8 = s7\<lparr>clock_label := Some h\<rparr>;
       s9 \<leftarrow> lv_obj_set_style_text_font (clock_label s8) lv_font_montserrat_28 s8;
       s10 \<leftarrow> lv_obj_center (clock_label s9) s9;
       s11 \<leftarrow> lv_label_set_text (clock_label s10) placeholder s10;
       Some (s11\<lparr>control := In_loop\<rparr>)
     }
   }"

text \<open>The format string and the arguments of the \<^verbatim>\<open>snprintf\<close> call of \<^verbatim>\<open>loop()\<close>.\<close>

definition time_fmt :: string where
  "time_fmt = ''%02d:%02d:%02d''"

definition time_args :: "RTC_Date \<Rightarrow> int list" where
  "time_args now = [sint (hour now), sint (minute now), sint (second now)]"

text \<open>
  One call of \<^verbatim>\<open>loop()\<close>. \<^verbatim>\<open>sizeof(buf)\<close> is the size of the buffer object, here the
  length of \<open>buf\<close>.
\<close>

definition loop :: "board \<Rightarrow> machine \<Rightarrow> machine option" where
  "loop hw s0 = do {
     let now = rtc_time hw (rtc_reads s0);
     let s1 = emit (Rtc_getDateTime now) (s0\<lparr>rtc_reads := Suc (rtc_reads s0)\<rparr>);
     b \<leftarrow> snprintf (buf s1) (length (buf s1)) time_fmt (time_args now);
     let s2 = emit Snprintf (s1\<lparr>buf := b\<rparr>);
     txt \<leftarrow> c_str (buf s2);
     s3 \<leftarrow> lv_label_set_text (clock_label s2) txt s2;
     let s4 = emit Lv_timer_handler s3;
     Some (emit (Delay 1000) s4)
   }"

text \<open>
  The Arduino runtime, which is not part of the source, calls \<^verbatim>\<open>setup()\<close> once and
  then \<^verbatim>\<open>loop()\<close> again and again (the bootstrap and the refresh loop of the
  specification). One
  tick is one call of \<^verbatim>\<open>setup()\<close> up to its return or its entry into the stall loop,
  one \<^verbatim>\<open>delay(100)\<close> of the stall loop, or one call of \<^verbatim>\<open>loop()\<close>; \<open>run hw n s\<close> is
  the state after \<open>n\<close> ticks, \<open>None\<close> when the program has faulted.
\<close>

definition tick :: "board \<Rightarrow> machine \<Rightarrow> machine option" where
  "tick hw s =
     (case control s of
        In_setup \<Rightarrow> setup_fw hw s
      | In_stall \<Rightarrow> Some (emit (Delay 100) s)
      | In_loop \<Rightarrow> loop hw s)"

fun run :: "board \<Rightarrow> nat \<Rightarrow> machine \<Rightarrow> machine option" where
  "run hw 0 s = Some s"
| "run hw (Suc n) s = run hw n s \<bind> tick hw"

section \<open>The pattern of a well-formed time\<close>

text \<open>
  The regular expression \<^verbatim>\<open>\d{2}:\d{2}:\d{2}\<close> of the specification, as a list of
  character classes, one per position.
\<close>

datatype char_class = Digit | Colon

fun in_class :: "char_class \<Rightarrow> char \<Rightarrow> bool" where
  "in_class Digit c = is_digit c"
| "in_class Colon c = (c = CHR '':'')"

definition hhmmss :: "char_class list" where
  "hhmmss = [Digit, Digit, Colon, Digit, Digit, Colon, Digit, Digit]"

definition matches_hhmmss :: "string \<Rightarrow> bool" where
  "matches_hhmmss t = list_all2 in_class hhmmss t"

section \<open>Notions used to state the properties\<close>

text \<open>
  The complete output of the format for one clock reading: the three conversions with
  the two colons between them (\<open>format_out_time_text\<close> below proves that this is what
  \<open>format_out\<close> computes).
\<close>

definition time_text :: "RTC_Date \<Rightarrow> string" where
  "time_text now =
     conv_d True 2 (sint (hour now)) @ CHR '':'' #
     conv_d True 2 (sint (minute now)) @ CHR '':'' #
     conv_d True 2 (sint (second now))"

text \<open>A string that is a well-formed time cut short: a prefix of a string of the pattern.\<close>

definition prefix_of_hhmmss :: "string \<Rightarrow> bool" where
  "prefix_of_hhmmss t = list_all2 in_class (take (length t) hhmmss) t"

text \<open>The calls on the serial port, on the motor, and those that create or delete widgets.\<close>

fun is_serial :: "event \<Rightarrow> bool" where
  "is_serial (Serial_begin _) = True"
| "is_serial (Serial_println _) = True"
| "is_serial _ = False"

fun is_motor_call :: "event \<Rightarrow> bool" where
  "is_motor_call (Motor_onec _) = True"
| "is_motor_call _ = False"

fun is_widget_lifecycle :: "event \<Rightarrow> bool" where
  "is_widget_lifecycle Lv_obj_clean = True"
| "is_widget_lifecycle (Lv_label_create _) = True"
| "is_widget_lifecycle _ = False"

text \<open>A state with the serial output left out of its record of calls.\<close>

definition hide_serial :: "machine \<Rightarrow> machine" where
  "hide_serial s = s\<lparr>trace := filter (\<lambda>e. \<not> is_serial e) (trace s)\<rparr>"

text \<open>One character of each class, to complete a prefix to a string of the pattern.\<close>

fun class_sample :: "char_class \<Rightarrow> char" where
  "class_sample Digit = CHR ''0''"
| "class_sample Colon = CHR '':''"

text \<open>
  A board on which \<^verbatim>\<open>watch.begin()\<close> succeeds, extended memory and motor are present,
  and the clock returns the reading \<open>r\<close> at every call.
\<close>

definition steady_board :: "RTC_Date \<Rightarrow> board" where
  "steady_board r =
     \<lparr>begin_ok = True, psram_found = True, motor_present = True, motor_pulse_ok = True,
      rtc_time = (\<lambda>k. r)\<rparr>"

section \<open>Facts about the formatted output\<close>

lemma format_out_time_fmt:
  "format_out Plain time_fmt [a, b, c] =
     Some (conv_d True 2 a @ CHR '':'' # conv_d True 2 b @ CHR '':'' # conv_d True 2 c)"
  by (simp add: time_fmt_def is_digit_def digit_val_def numeral_2_eq_2)

lemma digit_char_is_digit: "d < 10 \<Longrightarrow> is_digit (digit_char d)"
  unfolding is_digit_def digit_char_def by (intro nth_mem) simp

lemma digit_char_0: "digit_char 0 = CHR ''0''"
  by (simp add: digit_char_def)

lemma dec_digits_all_digits: "c \<in> set (dec_digits n) \<Longrightarrow> is_digit c"
proof (induction n rule: dec_digits.induct)
  case (1 n)
  show ?case
  proof (cases "n < 10")
    case True
    with "1.prems" show ?thesis
      by (simp add: dec_digits.simps [of n] digit_char_is_digit)
  next
    case False
    with "1.prems" "1.IH" show ?thesis
      by (auto simp: dec_digits.simps [of n] digit_char_is_digit)
  qed
qed

lemma is_digit_not_NUL: "is_digit c \<Longrightarrow> c \<noteq> NUL"
  by (auto simp: is_digit_def NUL_def)

lemma dec_digits_nonempty: "dec_digits n \<noteq> []"
  by (subst dec_digits.simps) simp

lemma dec_digits_lt_10: "n < 10 \<Longrightarrow> dec_digits n = [digit_char n]"
  by (subst dec_digits.simps) simp

lemma dec_digits_lt_100:
  "10 \<le> n \<Longrightarrow> n < 100 \<Longrightarrow> dec_digits n = [digit_char (n div 10), digit_char (n mod 10)]"
  by (subst dec_digits.simps) (simp add: dec_digits_lt_10)

lemma dec_digits_ge_100: "100 \<le> n \<Longrightarrow> 3 \<le> length (dec_digits n)"
proof -
  assume n: "100 \<le> n"
  have "dec_digits n = dec_digits (n div 10) @ [digit_char (n mod 10)]"
    using n by (subst dec_digits.simps) simp
  moreover have "\<not> n div 10 < 10"
    using n by arith
  then have "dec_digits (n div 10) = dec_digits (n div 10 div 10) @ [digit_char (n div 10 mod 10)]"
    by (subst dec_digits.simps) simp
  moreover have "1 \<le> length (dec_digits (n div 10 div 10))"
    using dec_digits_nonempty [of "n div 10 div 10"] by (cases "dec_digits (n div 10 div 10)") simp_all
  ultimately show ?thesis by simp
qed

lemma conv_d_02_in_range:
  assumes "0 \<le> v" "v \<le> 99"
  shows "conv_d True 2 v = [digit_char (nat v div 10), digit_char (nat v mod 10)]"
proof (cases "v < 10")
  case True
  with assms have "dec_digits (nat \<bar>v\<bar>) = [digit_char (nat v)]"
    by (simp add: dec_digits_lt_10)
  with assms True show ?thesis
    by (simp add: conv_d_def Let_def digit_char_0)
next
  case False
  with assms have "dec_digits (nat \<bar>v\<bar>) = [digit_char (nat v div 10), digit_char (nat v mod 10)]"
    by (simp add: dec_digits_lt_100)
  with assms False show ?thesis
    by (simp add: conv_d_def Let_def)
qed

lemma conv_d_no_NUL: "NUL \<notin> set (conv_d z w v)"
  using dec_digits_all_digits [THEN is_digit_not_NUL]
  by (auto simp: conv_d_def Let_def NUL_def)

lemma conv_d_02_length: "2 \<le> length (conv_d True 2 v)"
  by (auto simp: conv_d_def Let_def)

lemma snprintf_sizeof:
  assumes "format_out Plain fmt args = Some out" "b \<noteq> []"
  shows "snprintf b (length b) fmt args =
           Some (take (length b - 1) out @ NUL # drop (Suc (min (length out) (length b - 1))) b)"
proof -
  have "length (snprintf_stored (length b) out) = Suc (min (length out) (length b - 1))"
    by (simp add: snprintf_stored_def)
  moreover have "Suc (min (length out) (length b - 1)) \<le> length b"
    using assms(2) by (cases b) simp_all
  ultimately show ?thesis
    using assms by (simp add: snprintf_def Let_def snprintf_stored_def)
qed

lemma c_str_terminated: "NUL \<notin> set t \<Longrightarrow> c_str (t @ NUL # rest) = Some t"
proof -
  assume t: "NUL \<notin> set t"
  then have "takeWhile (\<lambda>c. c \<noteq> NUL) t = t"
    by (auto simp: takeWhile_eq_all_conv)
  then have "takeWhile (\<lambda>c. c \<noteq> NUL) (t @ NUL # rest) = t"
    by (simp add: takeWhile_tail)
  then show ?thesis
    by (simp add: c_str_def)
qed

lemma time_out_no_NUL:
  "NUL \<notin> set (conv_d True 2 a @ CHR '':'' # conv_d True 2 b @ CHR '':'' # conv_d True 2 c)"
  using conv_d_no_NUL by (simp add: NUL_def)

lemma time_out_in_range:
  assumes "0 \<le> a" "a \<le> 99" "0 \<le> b" "b \<le> 99" "0 \<le> c" "c \<le> 99"
  shows "matches_hhmmss (conv_d True 2 a @ CHR '':'' # conv_d True 2 b @ CHR '':'' # conv_d True 2 c)"
  using assms
  by (simp add: conv_d_02_in_range matches_hhmmss_def hhmmss_def digit_char_is_digit)

lemma matches_hhmmss_length: "matches_hhmmss t \<Longrightarrow> length t = 8"
  by (auto simp: matches_hhmmss_def hhmmss_def dest: list_all2_lengthD)

section \<open>Facts about setup, loop and the runtime\<close>

lemma format_out_time_text:
  "format_out Plain time_fmt (time_args now) = Some (time_text now)"
  unfolding time_args_def time_text_def by (rule format_out_time_fmt)

lemma time_text_no_NUL: "NUL \<notin> set (time_text now)"
  unfolding time_text_def by (rule time_out_no_NUL)

lemma setup_fw_failure:
  assumes "\<not> begin_ok hw"
  shows "setup_fw hw s =
     Some (s\<lparr>control := In_stall,
             trace := trace s @
               [Serial_begin 115200, Serial_println ''T-Watch S3 (PlatformIO) boot'',
                Watch_begin, Serial_println ''watch.begin() failed'']\<rparr>)"
  using assms by (simp add: setup_fw_def emit_def)

lemma setup_fw_success:
  assumes "begin_ok hw"
  shows "setup_fw hw s =
     Some (s\<lparr>control := In_loop,
             clock_label := Some (lv_next s),
             screen := [(lv_next s,
               \<lparr>label_text = placeholder, label_font = lv_font_montserrat_28,
                label_centered = True\<rparr>)],
             lv_next := Suc (lv_next s),
             trace := trace s @
               [Serial_begin 115200, Serial_println ''T-Watch S3 (PlatformIO) boot'', Watch_begin] @
               (if psram_found hw then [Serial_println ''PSRAM OK''] else []) @
               (if motor_present hw then [Motor_onec 30] else []) @
               [Lv_obj_clean, Lv_label_create (lv_next s),
                Lv_obj_set_style_text_font (lv_next s) lv_font_montserrat_28,
                Lv_obj_center (lv_next s),
                Lv_label_set_text (lv_next s) placeholder]\<rparr>)"
  using assms
  by (simp add: setup_fw_def emit_def lv_obj_clean_def lv_label_create_def Let_def
      lv_obj_set_style_text_font_def lv_obj_center_def lv_label_set_text_def lv_call_def
      lv_modify_def)

lemma loop_step:
  assumes "clock_label s = Some h" "h \<in> fst ` set (screen s)" "buf s \<noteq> []"
  shows "loop hw s =
     Some (s\<lparr>rtc_reads := Suc (rtc_reads s),
             buf := take (length (buf s) - 1) (time_text (rtc_time hw (rtc_reads s))) @ NUL #
                    drop (Suc (min (length (time_text (rtc_time hw (rtc_reads s))))
                                   (length (buf s) - 1))) (buf s),
             screen := lv_modify h
               (\<lambda>l. l\<lparr>label_text := take (length (buf s) - 1) (time_text (rtc_time hw (rtc_reads s)))\<rparr>)
               (screen s),
             trace := trace s @
               [Rtc_getDateTime (rtc_time hw (rtc_reads s)), Snprintf,
                Lv_label_set_text h (take (length (buf s) - 1) (time_text (rtc_time hw (rtc_reads s)))),
                Lv_timer_handler, Delay 1000]\<rparr>)"
proof -
  define now where "now = rtc_time hw (rtc_reads s)"
  define out where "out = time_text now"
  define t where "t = take (length (buf s) - 1) out"
  define b' where "b' = t @ NUL # drop (Suc (min (length out) (length (buf s) - 1))) (buf s)"
  have sn: "snprintf (buf s) (length (buf s)) time_fmt (time_args now) = Some b'"
    unfolding b'_def t_def out_def
    using format_out_time_text assms(3) by (rule snprintf_sizeof)
  have "NUL \<notin> set t"
    unfolding t_def out_def using time_text_no_NUL [of now] by (auto dest: in_set_takeD)
  then have cs: "c_str b' = Some t"
    unfolding b'_def by (rule c_str_terminated)
  have "loop hw s =
     Some (s\<lparr>rtc_reads := Suc (rtc_reads s), buf := b',
             screen := lv_modify h (\<lambda>l. l\<lparr>label_text := t\<rparr>) (screen s),
             trace := trace s @
               [Rtc_getDateTime now, Snprintf, Lv_label_set_text h t, Lv_timer_handler, Delay 1000]\<rparr>)"
    using assms(1,2) sn cs
    by (simp add: loop_def Let_def emit_def lv_label_set_text_def lv_call_def now_def [symmetric])
  then show ?thesis
    unfolding b'_def t_def out_def now_def .
qed

lemma run_stall:
  assumes "\<not> begin_ok hw" "control s = In_setup"
  shows "run hw (Suc n) s =
     Some (s\<lparr>control := In_stall,
             trace := trace s @
               [Serial_begin 115200, Serial_println ''T-Watch S3 (PlatformIO) boot'',
                Watch_begin, Serial_println ''watch.begin() failed''] @
               replicate n (Delay 100)\<rparr>)"
proof (induction n)
  case 0
  show ?case
    using assms by (simp add: tick_def setup_fw_failure)
next
  case (Suc n)
  show ?case
    by (simp only: run.simps(2) [of hw "Suc n"] Suc.IH)
       (simp add: tick_def emit_def replicate_append_same)
qed

lemma c_str_take_time_text:
  "c_str (take k (time_text now) @ NUL # rest) = Some (take k (time_text now))"
proof -
  have "NUL \<notin> set (take k (time_text now))"
    using time_text_no_NUL [of now] by (auto dest: in_set_takeD)
  then show ?thesis by (rule c_str_terminated)
qed

lemma run_loop:
  assumes "begin_ok hw" "control s0 = In_setup" "length (buf s0) = 16"
  shows "\<exists>s. run hw (Suc n) s0 = Some s \<and>
     control s = In_loop \<and>
     clock_label s = Some (lv_next s0) \<and>
     screen s = [(lv_next s0,
        \<lparr>label_text = (if n = 0 then placeholder
                        else take 15 (time_text (rtc_time hw (rtc_reads s0 + n - 1)))),
         label_font = lv_font_montserrat_28, label_centered = True\<rparr>)] \<and>
     lv_next s = Suc (lv_next s0) \<and>
     length (buf s) = 16 \<and>
     (if n = 0 then buf s = buf s0
      else c_str (buf s) = Some (take 15 (time_text (rtc_time hw (rtc_reads s0 + n - 1))))) \<and>
     rtc_reads s = rtc_reads s0 + n \<and>
     trace s = trace s0 @
       [Serial_begin 115200, Serial_println ''T-Watch S3 (PlatformIO) boot'', Watch_begin] @
       (if psram_found hw then [Serial_println ''PSRAM OK''] else []) @
       (if motor_present hw then [Motor_onec 30] else []) @
       [Lv_obj_clean, Lv_label_create (lv_next s0),
        Lv_obj_set_style_text_font (lv_next s0) lv_font_montserrat_28,
        Lv_obj_center (lv_next s0),
        Lv_label_set_text (lv_next s0) placeholder] @
       concat (map (\<lambda>k. [Rtc_getDateTime (rtc_time hw k), Snprintf,
                          Lv_label_set_text (lv_next s0) (take 15 (time_text (rtc_time hw k))),
                          Lv_timer_handler, Delay 1000])
                   [rtc_reads s0 ..< rtc_reads s0 + n])"
proof (induction n)
  case 0
  show ?case
    using assms by (simp add: tick_def setup_fw_success)
next
  case (Suc n)
  then obtain s where run: "run hw (Suc n) s0 = Some s"
    and ctl: "control s = In_loop"
    and lbl: "clock_label s = Some (lv_next s0)"
    and scr: "screen s = [(lv_next s0,
        \<lparr>label_text = (if n = 0 then placeholder
                        else take 15 (time_text (rtc_time hw (rtc_reads s0 + n - 1)))),
         label_font = lv_font_montserrat_28, label_centered = True\<rparr>)]"
    and nxt: "lv_next s = Suc (lv_next s0)"
    and len: "length (buf s) = 16"
    and rds: "rtc_reads s = rtc_reads s0 + n"
    and trc: "trace s = trace s0 @
       [Serial_begin 115200, Serial_println ''T-Watch S3 (PlatformIO) boot'', Watch_begin] @
       (if psram_found hw then [Serial_println ''PSRAM OK''] else []) @
       (if motor_present hw then [Motor_onec 30] else []) @
       [Lv_obj_clean, Lv_label_create (lv_next s0),
        Lv_obj_set_style_text_font (lv_next s0) lv_font_montserrat_28,
        Lv_obj_center (lv_next s0),
        Lv_label_set_text (lv_next s0) placeholder] @
       concat (map (\<lambda>k. [Rtc_getDateTime (rtc_time hw k), Snprintf,
                          Lv_label_set_text (lv_next s0) (take 15 (time_text (rtc_time hw k))),
                          Lv_timer_handler, Delay 1000])
                   [rtc_reads s0 ..< rtc_reads s0 + n])"
    by blast
  have on_screen: "lv_next s0 \<in> fst ` set (screen s)"
    by (simp add: scr)
  have ne: "buf s \<noteq> []"
    using len by auto
  note step = loop_step [OF lbl on_screen ne, of hw, unfolded len rds]
  have tick: "tick hw s = loop hw s"
    by (simp add: tick_def ctl)
  have "run hw (Suc (Suc n)) s0 = loop hw s"
    by (simp only: run.simps(2) [of hw "Suc n"] run) (simp add: tick)
  then show ?case
    unfolding step
    by (simp add: ctl lbl scr nxt len rds trc lv_modify_def c_str_take_time_text)
qed

lemma run_not_stalled:
  assumes "begin_ok hw" "control s0 = In_setup" "length (buf s0) = 16"
    and "run hw n s0 = Some s"
  shows "control s \<noteq> In_stall"
proof (cases n)
  case 0
  with assms show ?thesis by simp
next
  case (Suc m)
  with run_loop [OF assms(1-3), of m] assms(4) show ?thesis by auto
qed

lemma filter_lifecycle_iterations:
  "filter is_widget_lifecycle
     (concat (map (\<lambda>k. [Rtc_getDateTime (f k), Snprintf, Lv_label_set_text h (g k),
                          Lv_timer_handler, Delay 1000]) ks)) = []"
  by (induction ks) simp_all

lemma conv_d_02_head:
  "\<exists>c cs. conv_d True 2 v = c # cs \<and> (c = CHR ''-'' \<or> is_digit c)"
proof (cases "v < 0")
  case True
  then show ?thesis by (simp add: conv_d_def Let_def)
next
  case False
  obtain d ds where ds: "dec_digits (nat \<bar>v\<bar>) = d # ds"
    using dec_digits_nonempty [of "nat \<bar>v\<bar>"] by (cases "dec_digits (nat \<bar>v\<bar>)") auto
  then have d: "is_digit d"
    using dec_digits_all_digits [of d "nat \<bar>v\<bar>"] by simp
  show ?thesis
  proof (cases "ds = []")
    case True
    with False ds show ?thesis
      by (simp add: conv_d_def Let_def is_digit_def)
  next
    case False
    with \<open>\<not> v < 0\<close> ds d show ?thesis
      by (simp add: conv_d_def Let_def)
  qed
qed

lemma time_text_not_placeholder: "take 15 (time_text now) \<noteq> placeholder"
proof -
  obtain c cs where "conv_d True 2 (sint (hour now)) = c # cs" "c = CHR ''-'' \<or> is_digit c"
    using conv_d_02_head by blast
  then have "\<exists>r. take 15 (time_text now) = c # r" "c \<noteq> CHR ''S''"
    by (auto simp: time_text_def is_digit_def)
  then show ?thesis
    by (auto simp: placeholder_def)
qed


section \<open>The record of serial calls is write-only\<close>

lemma hide_serial_eqD:
  assumes "hide_serial s1 = hide_serial s2"
  shows "s2 = s1\<lparr>trace := trace s2\<rparr>"
    and "filter (\<lambda>e. \<not> is_serial e) (trace s1) = filter (\<lambda>e. \<not> is_serial e) (trace s2)"
  using assms by (cases s1; cases s2; simp add: hide_serial_def)+

lemma loop_trace_passive:
  "loop hw (s\<lparr>trace := t\<rparr>) =
     map_option (\<lambda>s'. s'\<lparr>trace := t @ drop (length (trace s)) (trace s')\<rparr>) (loop hw s)"
  by (auto simp: loop_def Let_def emit_def lv_label_set_text_def lv_call_def
      split: option.splits Option.bind_splits)

lemma loop_trace_extends:
  "loop hw s = Some s' \<Longrightarrow> trace s' = trace s @ drop (length (trace s)) (trace s')"
  by (auto simp: loop_def Let_def emit_def lv_label_set_text_def lv_call_def
      split: option.splits Option.bind_splits if_splits)

lemma emit_hide_serial:
  "hide_serial s1 = hide_serial s2 \<Longrightarrow> hide_serial (emit e s1) = hide_serial (emit e s2)"
  by (cases s1; cases s2) (simp add: hide_serial_def emit_def)

lemma loop_ignores_psram: "loop (hw\<lparr>psram_found := a\<rparr>) s = loop hw s"
  by (simp add: loop_def)

lemma loop_hide_serial:
  assumes "hide_serial s1 = hide_serial s2"
  shows "map_option hide_serial (loop hw s1) = map_option hide_serial (loop hw s2)"
proof (cases "loop hw s1")
  case None
  then have "loop hw (s1\<lparr>trace := trace s2\<rparr>) = None"
    by (simp add: loop_trace_passive)
  with None hide_serial_eqD(1) [OF assms] show ?thesis
    by simp
next
  case (Some s')
  define new where "new = drop (length (trace s1)) (trace s')"
  have ext: "trace s' = trace s1 @ new"
    unfolding new_def using Some by (rule loop_trace_extends)
  have "loop hw (s1\<lparr>trace := trace s2\<rparr>) = Some (s'\<lparr>trace := trace s2 @ new\<rparr>)"
    by (simp add: loop_trace_passive Some new_def)
  then have "loop hw s2 = Some (s'\<lparr>trace := trace s2 @ new\<rparr>)"
    using hide_serial_eqD(1) [OF assms] by simp
  moreover have "hide_serial (s'\<lparr>trace := trace s2 @ new\<rparr>) = hide_serial s'"
    using hide_serial_eqD(2) [OF assms] by (simp add: hide_serial_def ext)
  ultimately show ?thesis
    using Some by simp
qed

lemma setup_fw_hide_serial:
  assumes "hide_serial s1 = hide_serial s2"
  shows "map_option hide_serial (setup_fw (hw\<lparr>psram_found := a\<rparr>) s1) =
         map_option hide_serial (setup_fw (hw\<lparr>psram_found := b\<rparr>) s2)"
proof -
  note eq = hide_serial_eqD [OF assms]
  show ?thesis
  proof (cases "begin_ok hw")
    case True
    then have "begin_ok (hw\<lparr>psram_found := a\<rparr>)" "begin_ok (hw\<lparr>psram_found := b\<rparr>)"
      by simp_all
    then show ?thesis
      by (subst eq(1)) (simp add: setup_fw_success hide_serial_def eq(2))
  next
    case False
    then have "\<not> begin_ok (hw\<lparr>psram_found := a\<rparr>)" "\<not> begin_ok (hw\<lparr>psram_found := b\<rparr>)"
      by simp_all
    then show ?thesis
      by (subst eq(1)) (simp add: setup_fw_failure hide_serial_def eq(2))
  qed
qed

lemma tick_hide_serial:
  assumes "hide_serial s1 = hide_serial s2"
  shows "map_option hide_serial (tick (hw\<lparr>psram_found := a\<rparr>) s1) =
         map_option hide_serial (tick (hw\<lparr>psram_found := b\<rparr>) s2)"
proof -
  have c: "control s2 = control s1"
    by (subst hide_serial_eqD(1) [OF assms]) simp
  show ?thesis
  proof (cases "control s1")
    case In_setup
    with c show ?thesis
      using setup_fw_hide_serial [OF assms] by (simp add: tick_def)
  next
    case In_stall
    with c show ?thesis
      using emit_hide_serial [OF assms] by (simp add: tick_def)
  next
    case In_loop
    with c show ?thesis
      using loop_hide_serial [OF assms] by (simp add: tick_def loop_ignores_psram)
  qed
qed

lemma run_hide_serial:
  "map_option hide_serial (run (hw\<lparr>psram_found := a\<rparr>) n s) =
   map_option hide_serial (run (hw\<lparr>psram_found := b\<rparr>) n s)"
proof (induction n)
  case 0
  show ?case by simp
next
  case (Suc n)
  show ?case
  proof (cases "run (hw\<lparr>psram_found := a\<rparr>) n s")
    case None
    with Suc.IH have "run (hw\<lparr>psram_found := b\<rparr>) n s = None"
      by simp
    with None show ?thesis by simp
  next
    case (Some s1)
    with Suc.IH obtain s2 where s2: "run (hw\<lparr>psram_found := b\<rparr>) n s = Some s2"
      and eq: "hide_serial s1 = hide_serial s2"
      by (cases "run (hw\<lparr>psram_found := b\<rparr>) n s") auto
    show ?thesis
      using tick_hide_serial [OF eq] by (simp add: Some s2)
  qed
qed

section \<open>Field widths and prefixes of the pattern\<close>

lemma in_class_sample: "in_class c (class_sample c)"
  by (cases c) (simp_all add: is_digit_def)

lemma prefix_of_hhmmss_iff:
  "prefix_of_hhmmss t \<longleftrightarrow> (\<exists>w. matches_hhmmss w \<and> t = take (length t) w)"
proof
  assume p: "prefix_of_hhmmss t"
  define w where "w = t @ map class_sample (drop (length t) hhmmss)"
  have "list_all2 in_class (drop (length t) hhmmss) (map class_sample (drop (length t) hhmmss))"
    by (simp add: list_all2_conv_all_nth in_class_sample)
  with p have "list_all2 in_class (take (length t) hhmmss @ drop (length t) hhmmss) w"
    unfolding w_def prefix_of_hhmmss_def by (rule list_all2_appendI)
  then have "matches_hhmmss w"
    by (simp add: matches_hhmmss_def)
  moreover have "t = take (length t) w"
    by (simp add: w_def)
  ultimately show "\<exists>w. matches_hhmmss w \<and> t = take (length t) w"
    by blast
next
  assume "\<exists>w. matches_hhmmss w \<and> t = take (length t) w"
  then obtain w where w: "list_all2 in_class hhmmss w" and t: "t = take (length t) w"
    by (auto simp: matches_hhmmss_def)
  from w have "list_all2 in_class (take (length t) hhmmss) (take (length t) w)"
    by (rule list_all2_takeI)
  with t show "prefix_of_hhmmss t"
    by (simp add: prefix_of_hhmmss_def)
qed

lemma dec_digits_ge_10: "10 \<le> n \<Longrightarrow> 2 \<le> length (dec_digits n)"
proof -
  assume n: "10 \<le> n"
  have "dec_digits n = dec_digits (n div 10) @ [digit_char (n mod 10)]"
    using n by (subst dec_digits.simps) simp
  moreover have "1 \<le> length (dec_digits (n div 10))"
    using dec_digits_nonempty [of "n div 10"] by (cases "dec_digits (n div 10)") simp_all
  ultimately show ?thesis by simp
qed

lemma conv_d_02_wide:
  assumes "99 < v \<or> v < - 9"
  shows "2 < length (conv_d True 2 v)"
proof (cases "v < 0")
  case True
  with assms have "10 \<le> nat \<bar>v\<bar>" by simp
  then have "2 \<le> length (dec_digits (nat \<bar>v\<bar>))" by (rule dec_digits_ge_10)
  with True show ?thesis by (simp add: conv_d_def Let_def)
next
  case False
  with assms have "100 \<le> nat \<bar>v\<bar>" by simp
  then have "3 \<le> length (dec_digits (nat \<bar>v\<bar>))" by (rule dec_digits_ge_100)
  with False show ?thesis by (simp add: conv_d_def Let_def)
qed

lemma conv_d_02_two_digits:
  assumes "0 \<le> v" "v \<le> 99"
  shows "length (conv_d True 2 v) = 2 \<and> list_all is_digit (conv_d True 2 v)"
proof -
  have "nat v < 100"
    using assms by simp
  then have "nat v div 10 < 10"
    by arith
  then show ?thesis
    by (simp add: conv_d_02_in_range [OF assms] digit_char_is_digit)
qed

lemma time_text_in_range:
  assumes "0 \<le> sint (hour now)" "sint (hour now) \<le> 99"
    "0 \<le> sint (minute now)" "sint (minute now) \<le> 99"
    "0 \<le> sint (second now)" "sint (second now) \<le> 99"
  shows "matches_hhmmss (time_text now)" and "take 15 (time_text now) = time_text now"
proof -
  show m: "matches_hhmmss (time_text now)"
    unfolding time_text_def using assms by (rule time_out_in_range)
  from matches_hhmmss_length [OF m] show "take 15 (time_text now) = time_text now"
    by simp
qed

section \<open>The sample board and the state at power-on\<close>

lemma steady_board_simps:
  "begin_ok (steady_board r)" "rtc_time (steady_board r) k = r"
  "psram_found (steady_board r)" "motor_present (steady_board r)"
  by (simp_all add: steady_board_def)

lemma power_on_simps:
  "control power_on = In_setup" "length (buf power_on) = 16" "lv_next power_on = 0"
  "rtc_reads power_on = 0" "trace power_on = []"
  by (simp_all add: power_on_def)

section \<open>The state around one iteration\<close>

lemma run_enters_loop:
  assumes "begin_ok hw" and "control s0 = In_setup" and "length (buf s0) = 16"
  shows "\<exists>s. run hw (Suc n) s0 = Some s \<and>
           run hw (Suc (Suc n)) s0 = loop hw s \<and>
           clock_label s = Some (lv_next s0) \<and>
           lv_next s0 \<in> fst ` set (screen s) \<and>
           length (buf s) = 16 \<and>
           rtc_reads s = rtc_reads s0 + n"
proof -
  from run_loop [OF assms, of n] obtain s where s: "run hw (Suc n) s0 = Some s"
    "control s = In_loop" "clock_label s = Some (lv_next s0)"
    "screen s = [(lv_next s0,
        \<lparr>label_text = (if n = 0 then placeholder
                        else take 15 (time_text (rtc_time hw (rtc_reads s0 + n - 1)))),
         label_font = lv_font_montserrat_28, label_centered = True\<rparr>)]"
    "length (buf s) = 16" "rtc_reads s = rtc_reads s0 + n"
    by blast
  have "run hw (Suc (Suc n)) s0 = loop hw s"
    by (simp only: run.simps(2) [of hw "Suc n"] s(1)) (simp add: tick_def s(2))
  moreover have "lv_next s0 \<in> fst ` set (screen s)"
    by (simp add: s(4))
  ultimately show ?thesis
    using s by blast
qed

lemma run_shows_time:
  assumes "begin_ok hw" and "control s0 = In_setup" and "length (buf s0) = 16"
  shows "\<exists>s. run hw (Suc (Suc n)) s0 = Some s \<and>
           length (buf s) = 16 \<and>
           c_str (buf s) = Some (take 15 (time_text (rtc_time hw (rtc_reads s0 + n)))) \<and>
           screen s = [(lv_next s0,
              \<lparr>label_text = take 15 (time_text (rtc_time hw (rtc_reads s0 + n))),
               label_font = lv_font_montserrat_28, label_centered = True\<rparr>)]"
  using run_loop [OF assms, of "Suc n"] by auto

lemma run_steady_reading:
  assumes "begin_ok hw" and "control s0 = In_setup" and "length (buf s0) = 16"
    and "take 15 (time_text r) = t"
  shows "run (hw\<lparr>rtc_time := (\<lambda>k. r)\<rparr>) (Suc (Suc n)) s0 \<bind> (\<lambda>s. c_str (buf s)) = Some t"
proof -
  define hw' where "hw' = hw\<lparr>rtc_time := (\<lambda>k. r)\<rparr>"
  have b: "begin_ok hw'" and r: "rtc_time hw' (rtc_reads s0 + n) = r"
    using assms(1) by (simp_all add: hw'_def)
  from run_shows_time [OF b assms(2,3), of n] obtain s where s: "run hw' (Suc (Suc n)) s0 = Some s"
    "c_str (buf s) = Some (take 15 (time_text (rtc_time hw' (rtc_reads s0 + n))))"
    by blast
  have "run hw' (Suc (Suc n)) s0 \<bind> (\<lambda>s. c_str (buf s)) = c_str (buf s)"
    by (simp only: s(1) Option.bind.simps)
  with s(2) r assms(4) show ?thesis
    unfolding hw'_def by simp
qed

section \<open>The claims of the specification\<close>

subsection \<open>C1\<close>

text \<open>
  Claim C1. Whenever the clock returns a reading with hour in 0..23, minute in 0..59 and
  second in 0..59, the iteration of \<^verbatim>\<open>loop()\<close> that takes it (the \<^verbatim>\<open>snprintf\<close> of
  \<^verbatim>\<open>"%02d:%02d:%02d"\<close> into the 16-byte buffer) leaves in the buffer, and shows on the
  label, a string of exactly 8 characters that matches \<^verbatim>\<open>\d{2}:\d{2}:\d{2}\<close>; on a clock
  that reads (0, 5, 9) the buffer holds \<^verbatim>\<open>00:05:09\<close>, on one that reads (23, 59, 59) it
  holds \<^verbatim>\<open>23:59:59\<close>.
\<close>

theorem time_format_valid_triple:
  assumes "begin_ok hw" and "control s0 = In_setup" and "length (buf s0) = 16"
  shows "(\<exists>s. run hw (Suc (Suc n)) s0 = Some s \<and>
            (0 \<le> sint (hour (rtc_time hw (rtc_reads s0 + n))) \<and>
             sint (hour (rtc_time hw (rtc_reads s0 + n))) \<le> 23 \<and>
             0 \<le> sint (minute (rtc_time hw (rtc_reads s0 + n))) \<and>
             sint (minute (rtc_time hw (rtc_reads s0 + n))) \<le> 59 \<and>
             0 \<le> sint (second (rtc_time hw (rtc_reads s0 + n))) \<and>
             sint (second (rtc_time hw (rtc_reads s0 + n))) \<le> 59 \<longrightarrow>
               (\<exists>t. c_str (buf s) = Some t \<and> length t = 8 \<and> matches_hhmmss t \<and>
                    screen s = [(lv_next s0,
                      \<lparr>label_text = t, label_font = lv_font_montserrat_28,
                       label_centered = True\<rparr>)]))) \<and>
         run (hw\<lparr>rtc_time := (\<lambda>k. \<lparr>hour = 0, minute = 5, second = 9\<rparr>)\<rparr>) (Suc (Suc n)) s0 \<bind>
           (\<lambda>s. c_str (buf s)) = Some ''00:05:09'' \<and>
         run (hw\<lparr>rtc_time := (\<lambda>k. \<lparr>hour = 23, minute = 59, second = 59\<rparr>)\<rparr>) (Suc (Suc n)) s0 \<bind>
           (\<lambda>s. c_str (buf s)) = Some ''23:59:59''"
proof (intro conjI)
  from run_shows_time [OF assms, of n] obtain s where s: "run hw (Suc (Suc n)) s0 = Some s"
    "c_str (buf s) = Some (take 15 (time_text (rtc_time hw (rtc_reads s0 + n))))"
    "screen s = [(lv_next s0,
              \<lparr>label_text = take 15 (time_text (rtc_time hw (rtc_reads s0 + n))),
               label_font = lv_font_montserrat_28, label_centered = True\<rparr>)]"
    by blast
  have "\<exists>t. c_str (buf s) = Some t \<and> length t = 8 \<and> matches_hhmmss t \<and>
                    screen s = [(lv_next s0,
                      \<lparr>label_text = t, label_font = lv_font_montserrat_28,
                       label_centered = True\<rparr>)]"
    if "0 \<le> sint (hour (rtc_time hw (rtc_reads s0 + n))) \<and>
             sint (hour (rtc_time hw (rtc_reads s0 + n))) \<le> 23 \<and>
             0 \<le> sint (minute (rtc_time hw (rtc_reads s0 + n))) \<and>
             sint (minute (rtc_time hw (rtc_reads s0 + n))) \<le> 59 \<and>
             0 \<le> sint (second (rtc_time hw (rtc_reads s0 + n))) \<and>
             sint (second (rtc_time hw (rtc_reads s0 + n))) \<le> 59"
  proof -
    have r: "0 \<le> sint (hour (rtc_time hw (rtc_reads s0 + n)))"
      "sint (hour (rtc_time hw (rtc_reads s0 + n))) \<le> 99"
      "0 \<le> sint (minute (rtc_time hw (rtc_reads s0 + n)))"
      "sint (minute (rtc_time hw (rtc_reads s0 + n))) \<le> 99"
      "0 \<le> sint (second (rtc_time hw (rtc_reads s0 + n)))"
      "sint (second (rtc_time hw (rtc_reads s0 + n))) \<le> 99"
      using that by simp_all
    note m = time_text_in_range [OF r]
    from s(2,3) m matches_hhmmss_length [OF m(1)] show ?thesis
      by simp
  qed
  with s(1) show "\<exists>s. run hw (Suc (Suc n)) s0 = Some s \<and>
            (0 \<le> sint (hour (rtc_time hw (rtc_reads s0 + n))) \<and>
             sint (hour (rtc_time hw (rtc_reads s0 + n))) \<le> 23 \<and>
             0 \<le> sint (minute (rtc_time hw (rtc_reads s0 + n))) \<and>
             sint (minute (rtc_time hw (rtc_reads s0 + n))) \<le> 59 \<and>
             0 \<le> sint (second (rtc_time hw (rtc_reads s0 + n))) \<and>
             sint (second (rtc_time hw (rtc_reads s0 + n))) \<le> 59 \<longrightarrow>
               (\<exists>t. c_str (buf s) = Some t \<and> length t = 8 \<and> matches_hhmmss t \<and>
                    screen s = [(lv_next s0,
                      \<lparr>label_text = t, label_font = lv_font_montserrat_28,
                       label_centered = True\<rparr>)]))"
    by blast
next
  have "take 15 (time_text \<lparr>hour = 0, minute = 5, second = 9\<rparr>) = ''00:05:09''"
    by (simp add: time_text_def conv_d_02_in_range digit_char_def)
  with assms show "run (hw\<lparr>rtc_time := (\<lambda>k. \<lparr>hour = 0, minute = 5, second = 9\<rparr>)\<rparr>) (Suc (Suc n)) s0 \<bind>
           (\<lambda>s. c_str (buf s)) = Some ''00:05:09''"
    by (rule run_steady_reading)
next
  have "take 15 (time_text \<lparr>hour = 23, minute = 59, second = 59\<rparr>) = ''23:59:59''"
    by (simp add: time_text_def conv_d_02_in_range digit_char_def)
  with assms show "run (hw\<lparr>rtc_time := (\<lambda>k. \<lparr>hour = 23, minute = 59, second = 59\<rparr>)\<rparr>) (Suc (Suc n)) s0 \<bind>
           (\<lambda>s. c_str (buf s)) = Some ''23:59:59''"
    by (rule run_steady_reading)
qed

theorem time_format_valid_triple_witness:
  "begin_ok (steady_board \<lparr>hour = 12, minute = 34, second = 56\<rparr>) \<and>
   control power_on = In_setup \<and> length (buf power_on) = 16 \<and>
   0 \<le> sint (hour \<lparr>hour = 12, minute = 34, second = 56\<rparr>) \<and>
   sint (hour \<lparr>hour = 12, minute = 34, second = 56\<rparr>) \<le> 23 \<and>
   0 \<le> sint (minute \<lparr>hour = 12, minute = 34, second = 56\<rparr>) \<and>
   sint (minute \<lparr>hour = 12, minute = 34, second = 56\<rparr>) \<le> 59 \<and>
   0 \<le> sint (second \<lparr>hour = 12, minute = 34, second = 56\<rparr>) \<and>
   sint (second \<lparr>hour = 12, minute = 34, second = 56\<rparr>) \<le> 59 \<and>
   run (steady_board \<lparr>hour = 12, minute = 34, second = 56\<rparr>) (Suc (Suc 0)) power_on \<bind>
     (\<lambda>s. c_str (buf s)) = Some ''12:34:56'' \<and>
   map_option screen
     (run (steady_board \<lparr>hour = 12, minute = 34, second = 56\<rparr>) (Suc (Suc 0)) power_on) =
     Some [(0, \<lparr>label_text = ''12:34:56'', label_font = lv_font_montserrat_28,
                label_centered = True\<rparr>)] \<and>
   length ''12:34:56'' = 8 \<and> matches_hhmmss ''12:34:56''"
proof -
  have t: "time_text \<lparr>hour = 12, minute = 34, second = 56\<rparr> = ''12:34:56''"
    by (simp add: time_text_def conv_d_02_in_range digit_char_def)
  show ?thesis
    using time_format_valid_triple [OF steady_board_simps(1) power_on_simps(1,2),
        of "\<lparr>hour = 12, minute = 34, second = 56\<rparr>" 0]
    by (simp add: steady_board_simps power_on_simps t tick_def setup_fw_success loop_step
        power_on_def c_str_def NUL_def matches_hhmmss_def hhmmss_def is_digit_def)
qed

subsection \<open>C2\<close>

text \<open>
  Claim C2. If \<^verbatim>\<open>watch.begin()\<close> reports failure, then after any number of ticks the
  program is in the stall loop: nothing of the state but the record of calls has changed
  (no label was created, \<^verbatim>\<open>clock_label\<close> and the screen are untouched), the calls made
  are the two boot messages, \<^verbatim>\<open>watch.begin()\<close>, the failure message and then only
  \<^verbatim>\<open>delay(100)\<close>, and control never is in \<^verbatim>\<open>loop()\<close>. The stall loop is reached from
  that failure only: a run that is in the stall loop had \<^verbatim>\<open>watch.begin()\<close> fail.
\<close>

theorem begin_failure_stalls_forever:
  assumes "control s0 = In_setup" and "length (buf s0) = 16"
  shows "(\<not> begin_ok hw \<longrightarrow>
            run hw (Suc n) s0 =
              Some (s0\<lparr>control := In_stall,
                       trace := trace s0 @
                         [Serial_begin 115200, Serial_println ''T-Watch S3 (PlatformIO) boot'',
                          Watch_begin, Serial_println ''watch.begin() failed''] @
                         replicate n (Delay 100)\<rparr>)) \<and>
         (\<forall>s. run hw n s0 = Some s \<and> control s = In_stall \<longrightarrow> \<not> begin_ok hw)"
proof (intro conjI impI allI)
  assume "\<not> begin_ok hw"
  then show "run hw (Suc n) s0 =
              Some (s0\<lparr>control := In_stall,
                       trace := trace s0 @
                         [Serial_begin 115200, Serial_println ''T-Watch S3 (PlatformIO) boot'',
                          Watch_begin, Serial_println ''watch.begin() failed''] @
                         replicate n (Delay 100)\<rparr>)"
    using assms(1) by (rule run_stall)
next
  fix s
  assume "run hw n s0 = Some s \<and> control s = In_stall"
  then show "\<not> begin_ok hw"
    using run_not_stalled [OF _ assms, of hw n s] by blast
qed

theorem begin_failure_stalls_forever_witness:
  "control power_on = In_setup \<and> length (buf power_on) = 16 \<and>
   \<not> begin_ok \<lparr>begin_ok = False, psram_found = True, motor_present = True,
                motor_pulse_ok = True,
                rtc_time = (\<lambda>k. \<lparr>hour = 10, minute = 20, second = 30\<rparr>)\<rparr> \<and>
   run \<lparr>begin_ok = False, psram_found = True, motor_present = True,
        motor_pulse_ok = True,
        rtc_time = (\<lambda>k. \<lparr>hour = 10, minute = 20, second = 30\<rparr>)\<rparr> (Suc 2) power_on =
     Some \<lparr>control = In_stall, clock_label = None, buf = replicate 16 NUL,
           screen = [], lv_next = 0, rtc_reads = 0,
           trace = [Serial_begin 115200, Serial_println ''T-Watch S3 (PlatformIO) boot'',
                    Watch_begin, Serial_println ''watch.begin() failed'',
                    Delay 100, Delay 100]\<rparr>"
proof -
  have c: "control power_on = In_setup" and l: "length (buf power_on) = 16"
    by (simp_all add: power_on_def)
  show ?thesis
    using begin_failure_stalls_forever [OF c l,
        of "\<lparr>begin_ok = False, psram_found = True, motor_present = True,
            motor_pulse_ok = True,
            rtc_time = (\<lambda>k. \<lparr>hour = 10, minute = 20, second = 30\<rparr>)\<rparr>" 2]
    by (simp add: power_on_def numeral_2_eq_2)
qed

subsection \<open>C3\<close>

text \<open>
  Claim C3. Once \<^verbatim>\<open>setup()\<close> has returned, every tick is one call of \<^verbatim>\<open>loop()\<close>, for
  every \<open>n\<close>: the \<open>n\<close>-th iteration starts in the loop and ends in the loop (there is
  no way out), takes exactly one clock reading, and makes exactly these calls, in this
  order: the clock read, the \<^verbatim>\<open>snprintf\<close> of that reading into the buffer, the
  replacement of the label's text by the buffer's string, \<^verbatim>\<open>lv_timer_handler()\<close> and
  \<^verbatim>\<open>delay(1000)\<close>.
\<close>

theorem refresh_loop_iteration:
  assumes "begin_ok hw" and "control s0 = In_setup" and "length (buf s0) = 16"
  shows "\<exists>s s'. run hw (Suc n) s0 = Some s \<and> control s = In_loop \<and>
           run hw (Suc (Suc n)) s0 = Some s' \<and> control s' = In_loop \<and>
           rtc_reads s = rtc_reads s0 + n \<and> rtc_reads s' = Suc (rtc_reads s) \<and>
           format_out Plain time_fmt (time_args (rtc_time hw (rtc_reads s))) =
             Some (time_text (rtc_time hw (rtc_reads s))) \<and>
           c_str (buf s') = Some (take 15 (time_text (rtc_time hw (rtc_reads s)))) \<and>
           screen s' = [(lv_next s0,
              \<lparr>label_text = take 15 (time_text (rtc_time hw (rtc_reads s))),
               label_font = lv_font_montserrat_28, label_centered = True\<rparr>)] \<and>
           trace s' = trace s @
             [Rtc_getDateTime (rtc_time hw (rtc_reads s)),
              Snprintf,
              Lv_label_set_text (lv_next s0) (take 15 (time_text (rtc_time hw (rtc_reads s)))),
              Lv_timer_handler,
              Delay 1000]"
proof -
  from run_loop [OF assms, of n] obtain s where s: "run hw (Suc n) s0 = Some s"
    "control s = In_loop" "rtc_reads s = rtc_reads s0 + n"
    "trace s = trace s0 @
       [Serial_begin 115200, Serial_println ''T-Watch S3 (PlatformIO) boot'', Watch_begin] @
       (if psram_found hw then [Serial_println ''PSRAM OK''] else []) @
       (if motor_present hw then [Motor_onec 30] else []) @
       [Lv_obj_clean, Lv_label_create (lv_next s0),
        Lv_obj_set_style_text_font (lv_next s0) lv_font_montserrat_28,
        Lv_obj_center (lv_next s0),
        Lv_label_set_text (lv_next s0) placeholder] @
       concat (map (\<lambda>k. [Rtc_getDateTime (rtc_time hw k), Snprintf,
                          Lv_label_set_text (lv_next s0) (take 15 (time_text (rtc_time hw k))),
                          Lv_timer_handler, Delay 1000])
                   [rtc_reads s0 ..< rtc_reads s0 + n])"
    by blast
  from run_loop [OF assms, of "Suc n"] obtain s' where s': "run hw (Suc (Suc n)) s0 = Some s'"
    "control s' = In_loop" "rtc_reads s' = rtc_reads s0 + Suc n"
    "c_str (buf s') = Some (take 15 (time_text (rtc_time hw (rtc_reads s0 + n))))"
    "screen s' = [(lv_next s0,
        \<lparr>label_text = take 15 (time_text (rtc_time hw (rtc_reads s0 + n))),
         label_font = lv_font_montserrat_28, label_centered = True\<rparr>)]"
    "trace s' = trace s0 @
       [Serial_begin 115200, Serial_println ''T-Watch S3 (PlatformIO) boot'', Watch_begin] @
       (if psram_found hw then [Serial_println ''PSRAM OK''] else []) @
       (if motor_present hw then [Motor_onec 30] else []) @
       [Lv_obj_clean, Lv_label_create (lv_next s0),
        Lv_obj_set_style_text_font (lv_next s0) lv_font_montserrat_28,
        Lv_obj_center (lv_next s0),
        Lv_label_set_text (lv_next s0) placeholder] @
       concat (map (\<lambda>k. [Rtc_getDateTime (rtc_time hw k), Snprintf,
                          Lv_label_set_text (lv_next s0) (take 15 (time_text (rtc_time hw k))),
                          Lv_timer_handler, Delay 1000])
                   [rtc_reads s0 ..< rtc_reads s0 + Suc n])"
    by auto
  have "trace s' = trace s @
             [Rtc_getDateTime (rtc_time hw (rtc_reads s)),
              Snprintf,
              Lv_label_set_text (lv_next s0) (take 15 (time_text (rtc_time hw (rtc_reads s)))),
              Lv_timer_handler,
              Delay 1000]"
    by (simp add: s(3,4) s'(6))
  with s s' format_out_time_text [of "rtc_time hw (rtc_reads s)"] show ?thesis
    by simp
qed

theorem refresh_loop_iteration_witness:
  "begin_ok \<lparr>begin_ok = True, psram_found = True, motor_present = True,
              motor_pulse_ok = True,
              rtc_time = (\<lambda>k. \<lparr>hour = 12, minute = 34, second = 56\<rparr>)\<rparr> \<and>
   control power_on = In_setup \<and> length (buf power_on) = 16 \<and>
   map_option trace
     (run \<lparr>begin_ok = True, psram_found = True, motor_present = True,
           motor_pulse_ok = True,
           rtc_time = (\<lambda>k. \<lparr>hour = 12, minute = 34, second = 56\<rparr>)\<rparr> (Suc (Suc 0)) power_on) =
     Some ([Serial_begin 115200, Serial_println ''T-Watch S3 (PlatformIO) boot'', Watch_begin,
            Serial_println ''PSRAM OK'', Motor_onec 30, Lv_obj_clean, Lv_label_create 0,
            Lv_obj_set_style_text_font 0 lv_font_montserrat_28, Lv_obj_center 0,
            Lv_label_set_text 0 placeholder] @
           [Rtc_getDateTime \<lparr>hour = 12, minute = 34, second = 56\<rparr>, Snprintf,
            Lv_label_set_text 0 ''12:34:56'', Lv_timer_handler, Delay 1000])"
proof -
  have b: "begin_ok \<lparr>begin_ok = True, psram_found = True, motor_present = True,
              motor_pulse_ok = True,
              rtc_time = (\<lambda>k. \<lparr>hour = 12, minute = 34, second = 56\<rparr>)\<rparr>"
    by simp
  have c: "control power_on = In_setup" and l: "length (buf power_on) = 16"
    by (simp_all add: power_on_def)
  have t: "time_text \<lparr>hour = 12, minute = 34, second = 56\<rparr> = ''12:34:56''"
    by (simp add: time_text_def conv_d_02_in_range digit_char_def)
  show ?thesis
    using refresh_loop_iteration [OF b c l, of 0] c l
    by (simp add: t power_on_def tick_def setup_fw_success loop_step)
qed

subsection \<open>C4\<close>

text \<open>
  Claim C4, as amended. For every reading the clock can return, the text displayed after
  an iteration is the complete output of the format cut to at most 15 characters. The
  two-digit zero padding is a minimum width: every field has at least two characters,
  is exactly two digits when its value is in 0..99, and has more than two characters
  when its value is above 99 or below -9. When all three values are in 0..99 the
  displayed text is the complete output and a well-formed time.
\<close>

theorem displayed_text_any_reading:
  assumes "begin_ok hw" and "control s0 = In_setup" and "length (buf s0) = 16"
  shows "\<exists>s. run hw (Suc (Suc n)) s0 = Some s \<and>
     screen s = [(lv_next s0,
        \<lparr>label_text = take 15 (time_text (rtc_time hw (rtc_reads s0 + n))),
         label_font = lv_font_montserrat_28, label_centered = True\<rparr>)] \<and>
     format_out Plain time_fmt (time_args (rtc_time hw (rtc_reads s0 + n))) =
       Some (time_text (rtc_time hw (rtc_reads s0 + n))) \<and>
     time_text (rtc_time hw (rtc_reads s0 + n)) =
       conv_d True 2 (sint (hour (rtc_time hw (rtc_reads s0 + n)))) @ CHR '':'' #
       conv_d True 2 (sint (minute (rtc_time hw (rtc_reads s0 + n)))) @ CHR '':'' #
       conv_d True 2 (sint (second (rtc_time hw (rtc_reads s0 + n)))) \<and>
     (\<forall>v. 2 \<le> length (conv_d True 2 v) \<and>
          (0 \<le> v \<and> v \<le> 99 \<longrightarrow>
             length (conv_d True 2 v) = 2 \<and> list_all is_digit (conv_d True 2 v)) \<and>
          (99 < v \<or> v < - 9 \<longrightarrow> 2 < length (conv_d True 2 v))) \<and>
     (0 \<le> sint (hour (rtc_time hw (rtc_reads s0 + n))) \<and>
      sint (hour (rtc_time hw (rtc_reads s0 + n))) \<le> 99 \<and>
      0 \<le> sint (minute (rtc_time hw (rtc_reads s0 + n))) \<and>
      sint (minute (rtc_time hw (rtc_reads s0 + n))) \<le> 99 \<and>
      0 \<le> sint (second (rtc_time hw (rtc_reads s0 + n))) \<and>
      sint (second (rtc_time hw (rtc_reads s0 + n))) \<le> 99 \<longrightarrow>
        take 15 (time_text (rtc_time hw (rtc_reads s0 + n))) =
          time_text (rtc_time hw (rtc_reads s0 + n)) \<and>
        matches_hhmmss (time_text (rtc_time hw (rtc_reads s0 + n))))"
proof -
  from run_loop [OF assms, of "Suc n"] obtain s where s: "run hw (Suc (Suc n)) s0 = Some s"
    "screen s = [(lv_next s0,
        \<lparr>label_text = take 15 (time_text (rtc_time hw (rtc_reads s0 + n))),
         label_font = lv_font_montserrat_28, label_centered = True\<rparr>)]"
    by auto
  have widths: "\<forall>v. 2 \<le> length (conv_d True 2 v) \<and>
          (0 \<le> v \<and> v \<le> 99 \<longrightarrow>
             length (conv_d True 2 v) = 2 \<and> list_all is_digit (conv_d True 2 v)) \<and>
          (99 < v \<or> v < - 9 \<longrightarrow> 2 < length (conv_d True 2 v))"
    using conv_d_02_length conv_d_02_two_digits conv_d_02_wide by blast
  from s format_out_time_text [of "rtc_time hw (rtc_reads s0 + n)"]
    time_text_def [of "rtc_time hw (rtc_reads s0 + n)"] widths
    time_text_in_range [of "rtc_time hw (rtc_reads s0 + n)"]
  show ?thesis
    by blast
qed

theorem displayed_text_any_reading_witness:
  "begin_ok (steady_board \<lparr>hour = 23, minute = 59, second = 60\<rparr>) \<and>
   control power_on = In_setup \<and> length (buf power_on) = 16 \<and>
   map_option screen
     (run (steady_board \<lparr>hour = 23, minute = 59, second = 60\<rparr>) (Suc (Suc 0)) power_on) =
     Some [(0, \<lparr>label_text = ''23:59:60'', label_font = lv_font_montserrat_28,
                label_centered = True\<rparr>)] \<and>
   matches_hhmmss ''23:59:60''"
proof -
  have t: "time_text \<lparr>hour = 23, minute = 59, second = 60\<rparr> = ''23:59:60''"
    by (simp add: time_text_def conv_d_02_in_range digit_char_def)
  show ?thesis
    using displayed_text_any_reading [OF steady_board_simps(1) power_on_simps(1,2),
        of "\<lparr>hour = 23, minute = 59, second = 60\<rparr>" 0]
    by (auto simp: steady_board_simps power_on_simps t)
qed

text \<open>
  Claim C4 as the specification words it fails on the reading (100, 0, 0): the hour
  field has three characters, and the displayed text, nine characters long, is not a
  well-formed time cut short.
\<close>

theorem displayed_text_widened_counterexample:
  "map_option screen
     (run (steady_board \<lparr>hour = 100, minute = 0, second = 0\<rparr>) (Suc (Suc 0)) power_on) =
     Some [(0, \<lparr>label_text = ''100:00:00'', label_font = lv_font_montserrat_28,
                label_centered = True\<rparr>)] \<and>
   \<not> prefix_of_hhmmss ''100:00:00'' \<and>
   conv_d True 2 100 = ''100''"
proof -
  have t: "time_text \<lparr>hour = 100, minute = 0, second = 0\<rparr> = ''100:00:00''"
    by (simp add: time_text_def conv_d_def dec_digits.simps digit_char_def)
  have c: "conv_d True 2 100 = ''100''"
    by (simp add: conv_d_def dec_digits.simps digit_char_def)
  have p: "\<not> prefix_of_hhmmss ''100:00:00''"
    by (simp add: prefix_of_hhmmss_def hhmmss_def)
  from run_loop [OF steady_board_simps(1) power_on_simps(1,2),
      of "\<lparr>hour = 100, minute = 0, second = 0\<rparr>" "Suc 0"]
  have "map_option screen
     (run (steady_board \<lparr>hour = 100, minute = 0, second = 0\<rparr>) (Suc (Suc 0)) power_on) =
     Some [(0, \<lparr>label_text = ''100:00:00'', label_font = lv_font_montserrat_28,
                label_centered = True\<rparr>)]"
    by (auto simp: steady_board_simps power_on_simps t)
  with p c show ?thesis
    by blast
qed

subsection \<open>C5\<close>

text \<open>
  Claim C5, as amended. After every iteration of \<^verbatim>\<open>loop()\<close> the buffer still has its 16
  bytes and is terminated: it reads as a C string, the first 15 characters of the
  complete output for the reading just taken. When hour, minute and second are all in
  0..99 that string is the complete output and a well-formed time.
\<close>

theorem buffer_after_iteration:
  assumes "begin_ok hw" and "control s0 = In_setup" and "length (buf s0) = 16"
  shows "\<exists>s. run hw (Suc (Suc n)) s0 = Some s \<and>
     length (buf s) = 16 \<and>
     c_str (buf s) = Some (take 15 (time_text (rtc_time hw (rtc_reads s0 + n)))) \<and>
     format_out Plain time_fmt (time_args (rtc_time hw (rtc_reads s0 + n))) =
       Some (time_text (rtc_time hw (rtc_reads s0 + n))) \<and>
     (0 \<le> sint (hour (rtc_time hw (rtc_reads s0 + n))) \<and>
      sint (hour (rtc_time hw (rtc_reads s0 + n))) \<le> 99 \<and>
      0 \<le> sint (minute (rtc_time hw (rtc_reads s0 + n))) \<and>
      sint (minute (rtc_time hw (rtc_reads s0 + n))) \<le> 99 \<and>
      0 \<le> sint (second (rtc_time hw (rtc_reads s0 + n))) \<and>
      sint (second (rtc_time hw (rtc_reads s0 + n))) \<le> 99 \<longrightarrow>
        c_str (buf s) = Some (time_text (rtc_time hw (rtc_reads s0 + n))) \<and>
        matches_hhmmss (time_text (rtc_time hw (rtc_reads s0 + n))))"
proof -
  from run_loop [OF assms, of "Suc n"] obtain s where s: "run hw (Suc (Suc n)) s0 = Some s"
    "length (buf s) = 16"
    "c_str (buf s) = Some (take 15 (time_text (rtc_time hw (rtc_reads s0 + n))))"
    by auto
  from s format_out_time_text [of "rtc_time hw (rtc_reads s0 + n)"]
    time_text_in_range [of "rtc_time hw (rtc_reads s0 + n)"]
  show ?thesis
    by auto
qed

theorem buffer_after_iteration_witness:
  "begin_ok (steady_board \<lparr>hour = 0, minute = 0, second = 0\<rparr>) \<and>
   control power_on = In_setup \<and> length (buf power_on) = 16 \<and>
   map_option buf
     (run (steady_board \<lparr>hour = 0, minute = 0, second = 0\<rparr>) (Suc (Suc 0)) power_on) =
     Some (''00:00:00'' @ NUL # replicate 7 NUL) \<and>
   c_str (''00:00:00'' @ NUL # replicate 7 NUL) = Some ''00:00:00'' \<and>
   matches_hhmmss ''00:00:00''"
proof -
  have t: "time_text \<lparr>hour = 0, minute = 0, second = 0\<rparr> = ''00:00:00''"
    by (simp add: time_text_def conv_d_02_in_range digit_char_def)
  show ?thesis
    using buffer_after_iteration [OF steady_board_simps(1) power_on_simps(1,2),
        of "\<lparr>hour = 0, minute = 0, second = 0\<rparr>" 0]
    by (simp add: steady_board_simps power_on_simps t tick_def setup_fw_success loop_step
        power_on_def c_str_def NUL_def matches_hhmmss_def hhmmss_def is_digit_def)
qed

text \<open>
  Claim C5 as the specification words it fails on the reading (12345, 12345, 12345):
  the buffer holds the first 15 of the 17 characters of the output, which is neither the
  complete rendering of the reading nor a well-formed time.
\<close>

theorem buffer_not_hhmmss_counterexample:
  "map_option buf
     (run (steady_board \<lparr>hour = 12345, minute = 12345, second = 12345\<rparr>) (Suc (Suc 0))
        power_on) =
     Some (''12345:12345:123'' @ [NUL]) \<and>
   format_out Plain time_fmt (time_args \<lparr>hour = 12345, minute = 12345, second = 12345\<rparr>) =
     Some ''12345:12345:12345'' \<and>
   c_str (''12345:12345:123'' @ [NUL]) = Some ''12345:12345:123'' \<and>
   \<not> matches_hhmmss ''12345:12345:123''"
proof -
  have t: "time_text \<lparr>hour = 12345, minute = 12345, second = 12345\<rparr> = ''12345:12345:12345''"
    by (simp add: time_text_def conv_d_def dec_digits.simps digit_char_def)
  have f: "format_out Plain time_fmt (time_args \<lparr>hour = 12345, minute = 12345, second = 12345\<rparr>) =
     Some ''12345:12345:12345''"
    using format_out_time_text [of "\<lparr>hour = 12345, minute = 12345, second = 12345\<rparr>"]
    by (simp only: t)
  have r: "map_option buf
     (run (steady_board \<lparr>hour = 12345, minute = 12345, second = 12345\<rparr>) (Suc (Suc 0))
        power_on) =
     Some (''12345:12345:123'' @ [NUL])"
    by (simp add: steady_board_simps power_on_simps t tick_def setup_fw_success loop_step
        power_on_def)
  have c: "c_str (''12345:12345:123'' @ [NUL]) = Some ''12345:12345:123''"
    by (simp add: c_str_def NUL_def)
  have m: "\<not> matches_hhmmss ''12345:12345:123''"
    by (simp add: matches_hhmmss_def hhmmss_def)
  from r f c m show ?thesis
    by blast
qed

subsection \<open>C6\<close>



subsection \<open>C7\<close>

text \<open>
  Claim C7. After a successful \<^verbatim>\<open>watch.begin()\<close>, \<^verbatim>\<open>setup()\<close> calls the motor's pulse
  exactly once, for 30 ms, when the motor handle is present, and not at all when it is
  absent; in both cases it runs to its end, and the state it reaches without the motor is
  the state it reaches with it, but for the pulse missing from the record of calls.
  Whether the pulse succeeds changes nothing.
\<close>

theorem motor_pulse_capability_checked:
  assumes "begin_ok hw"
  shows "\<exists>sT sF.
     setup_fw (hw\<lparr>motor_present := True\<rparr>) s = Some sT \<and>
     setup_fw (hw\<lparr>motor_present := False\<rparr>) s = Some sF \<and>
     filter is_motor_call (drop (length (trace s)) (trace sT)) = [Motor_onec 30] \<and>
     filter is_motor_call (drop (length (trace s)) (trace sF)) = [] \<and>
     sF = sT\<lparr>trace := trace s @
              filter (\<lambda>e. \<not> is_motor_call e) (drop (length (trace s)) (trace sT))\<rparr> \<and>
     control sT = In_loop \<and> control sF = In_loop \<and>
     setup_fw (hw\<lparr>motor_pulse_ok := ok\<rparr>) s = setup_fw hw s"
proof -
  have "begin_ok (hw\<lparr>motor_present := True\<rparr>)" "begin_ok (hw\<lparr>motor_present := False\<rparr>)"
    "begin_ok (hw\<lparr>motor_pulse_ok := ok\<rparr>)"
    using assms by simp_all
  then show ?thesis
    using assms by (simp add: setup_fw_success)
qed

theorem motor_pulse_capability_checked_witness:
  "begin_ok \<lparr>begin_ok = True, psram_found = True, motor_present = True,
              motor_pulse_ok = False,
              rtc_time = (\<lambda>k. \<lparr>hour = 1, minute = 2, second = 3\<rparr>)\<rparr> \<and>
   map_option trace
     (setup_fw \<lparr>begin_ok = True, psram_found = True, motor_present = True,
                motor_pulse_ok = False,
                rtc_time = (\<lambda>k. \<lparr>hour = 1, minute = 2, second = 3\<rparr>)\<rparr> power_on) =
     Some [Serial_begin 115200, Serial_println ''T-Watch S3 (PlatformIO) boot'', Watch_begin,
           Serial_println ''PSRAM OK'', Motor_onec 30, Lv_obj_clean, Lv_label_create 0,
           Lv_obj_set_style_text_font 0 lv_font_montserrat_28, Lv_obj_center 0,
           Lv_label_set_text 0 placeholder] \<and>
   map_option trace
     (setup_fw \<lparr>begin_ok = True, psram_found = True, motor_present = False,
                motor_pulse_ok = False,
                rtc_time = (\<lambda>k. \<lparr>hour = 1, minute = 2, second = 3\<rparr>)\<rparr> power_on) =
     Some [Serial_begin 115200, Serial_println ''T-Watch S3 (PlatformIO) boot'', Watch_begin,
           Serial_println ''PSRAM OK'', Lv_obj_clean, Lv_label_create 0,
           Lv_obj_set_style_text_font 0 lv_font_montserrat_28, Lv_obj_center 0,
           Lv_label_set_text 0 placeholder]"
proof -
  have b: "begin_ok \<lparr>begin_ok = True, psram_found = True, motor_present = True,
              motor_pulse_ok = False,
              rtc_time = (\<lambda>k. \<lparr>hour = 1, minute = 2, second = 3\<rparr>)\<rparr>"
    by simp
  show ?thesis
    using motor_pulse_capability_checked [OF b, of power_on True]
    by (simp add: power_on_def setup_fw_success)
qed

subsection \<open>C8\<close>

text \<open>
  Claim C8. Two boards that differ in the answer of \<^verbatim>\<open>psramFound()\<close> only, started in
  the same state and run for the same number of ticks, fault together or reach states
  that are equal but for the calls on the serial port: the label, the buffer, the handle,
  the readings taken and every call on the hardware and on the graphics library are the
  same. After a successful \<^verbatim>\<open>watch.begin()\<close> the serial output of \<^verbatim>\<open>setup()\<close> is the
  boot message, followed by \<^verbatim>\<open>PSRAM OK\<close> exactly when extended memory was found.
\<close>

theorem psram_affects_serial_only:
  "map_option hide_serial (run (hw\<lparr>psram_found := True\<rparr>) n s) =
   map_option hide_serial (run (hw\<lparr>psram_found := False\<rparr>) n s) \<and>
   map_option (\<lambda>s'. filter is_serial (drop (length (trace s)) (trace s')))
      (setup_fw (hw\<lparr>begin_ok := True, psram_found := True\<rparr>) s) =
     Some [Serial_begin 115200, Serial_println ''T-Watch S3 (PlatformIO) boot'',
           Serial_println ''PSRAM OK''] \<and>
   map_option (\<lambda>s'. filter is_serial (drop (length (trace s)) (trace s')))
      (setup_fw (hw\<lparr>begin_ok := True, psram_found := False\<rparr>) s) =
     Some [Serial_begin 115200, Serial_println ''T-Watch S3 (PlatformIO) boot'']"
  using run_hide_serial [where a = True and b = False]
  by (simp add: setup_fw_success)

theorem psram_affects_serial_only_witness:
  "map_option hide_serial
     (run ((steady_board \<lparr>hour = 1, minute = 2, second = 3\<rparr>)\<lparr>psram_found := True\<rparr>)
        (Suc (Suc 0)) power_on) =
   map_option hide_serial
     (run ((steady_board \<lparr>hour = 1, minute = 2, second = 3\<rparr>)\<lparr>psram_found := False\<rparr>)
        (Suc (Suc 0)) power_on) \<and>
   map_option trace
     (run ((steady_board \<lparr>hour = 1, minute = 2, second = 3\<rparr>)\<lparr>psram_found := True\<rparr>)
        (Suc 0) power_on) =
     Some [Serial_begin 115200, Serial_println ''T-Watch S3 (PlatformIO) boot'', Watch_begin,
           Serial_println ''PSRAM OK'', Motor_onec 30, Lv_obj_clean, Lv_label_create 0,
           Lv_obj_set_style_text_font 0 lv_font_montserrat_28, Lv_obj_center 0,
           Lv_label_set_text 0 placeholder] \<and>
   map_option trace
     (run ((steady_board \<lparr>hour = 1, minute = 2, second = 3\<rparr>)\<lparr>psram_found := False\<rparr>)
        (Suc 0) power_on) =
     Some [Serial_begin 115200, Serial_println ''T-Watch S3 (PlatformIO) boot'', Watch_begin,
           Motor_onec 30, Lv_obj_clean, Lv_label_create 0,
           Lv_obj_set_style_text_font 0 lv_font_montserrat_28, Lv_obj_center 0,
           Lv_label_set_text 0 placeholder]"
  using psram_affects_serial_only
    [of "steady_board \<lparr>hour = 1, minute = 2, second = 3\<rparr>" "Suc (Suc 0)" power_on]
  by (simp add: steady_board_def power_on_simps tick_def setup_fw_success)

subsection \<open>C9\<close>

text \<open>
  Claim C9. For every clock reading, all 32-bit values included, the \<^verbatim>\<open>snprintf\<close> call
  of every iteration of \<^verbatim>\<open>loop()\<close> does not overflow the buffer: the iteration does not
  fault, it stores at most 16 bytes, at the front of the 16-byte buffer, the buffer keeps
  its 16 bytes, a \<open>NUL\<close> stands behind the at most 15 characters stored, and the buffer
  reads as a C string, the first 15 characters of the complete output.
\<close>

theorem snprintf_never_overflows:
  assumes "begin_ok hw" and "control s0 = In_setup" and "length (buf s0) = 16"
  shows "\<exists>s s'. run hw (Suc n) s0 = Some s \<and> loop hw s = Some s' \<and>
           run hw (Suc (Suc n)) s0 = Some s' \<and>
           length (buf s) = 16 \<and>
           format_out Plain time_fmt (time_args (rtc_time hw (rtc_reads s0 + n))) =
             Some (time_text (rtc_time hw (rtc_reads s0 + n))) \<and>
           length (snprintf_stored (length (buf s)) (time_text (rtc_time hw (rtc_reads s0 + n))))
             \<le> 16 \<and>
           buf s' =
             snprintf_stored (length (buf s)) (time_text (rtc_time hw (rtc_reads s0 + n))) @
             drop (length (snprintf_stored (length (buf s))
                     (time_text (rtc_time hw (rtc_reads s0 + n))))) (buf s) \<and>
           length (buf s') = 16 \<and>
           buf s' ! min (length (time_text (rtc_time hw (rtc_reads s0 + n)))) 15 = NUL \<and>
           c_str (buf s') = Some (take 15 (time_text (rtc_time hw (rtc_reads s0 + n))))"
proof -
  define now where "now = rtc_time hw (rtc_reads s0 + n)"
  from run_enters_loop [OF assms, of n] obtain s where s: "run hw (Suc n) s0 = Some s"
    "run hw (Suc (Suc n)) s0 = loop hw s" "clock_label s = Some (lv_next s0)"
    "lv_next s0 \<in> fst ` set (screen s)" "length (buf s) = 16"
    "rtc_reads s = rtc_reads s0 + n"
    by blast
  have ne: "buf s \<noteq> []"
    using s(5) by auto
  define b' where "b' = take 15 (time_text now) @ NUL # drop (Suc (min (length (time_text now)) 15)) (buf s)"
  obtain s' where s': "loop hw s = Some s'" "buf s' = b'"
    using loop_step [OF s(3,4) ne, of hw] by (simp add: s(5,6) b'_def now_def)
  have st: "snprintf_stored (length (buf s)) (time_text now) = take 15 (time_text now) @ [NUL]"
    by (simp add: snprintf_stored_def s(5))
  have l: "length (snprintf_stored (length (buf s)) (time_text now)) \<le> 16"
    unfolding st by simp
  have eq: "buf s' = snprintf_stored (length (buf s)) (time_text now) @
                drop (length (snprintf_stored (length (buf s)) (time_text now))) (buf s)"
    unfolding st s'(2) b'_def by simp
  have len: "length (buf s') = 16"
    unfolding s'(2) b'_def using s(5) by simp
  have nul: "buf s' ! min (length (time_text now)) 15 = NUL"
    unfolding s'(2) b'_def by (simp add: nth_append)
  have cs: "c_str (buf s') = Some (take 15 (time_text now))"
    unfolding s'(2) b'_def by (rule c_str_take_time_text)
  have r: "run hw (Suc (Suc n)) s0 = Some s'"
    using s(2) s'(1) by simp
  from s(1) s'(1) r s(5) format_out_time_text [of now] l eq len nul cs show ?thesis
    unfolding now_def by blast
qed

theorem snprintf_never_overflows_witness:
  "begin_ok (steady_board \<lparr>hour = 0x80000000, minute = - 1, second = 999999\<rparr>) \<and>
   control power_on = In_setup \<and> length (buf power_on) = 16 \<and>
   format_out Plain time_fmt (time_args \<lparr>hour = 0x80000000, minute = - 1, second = 999999\<rparr>) =
     Some ''-2147483648:-1:999999'' \<and>
   map_option buf
     (run (steady_board \<lparr>hour = 0x80000000, minute = - 1, second = 999999\<rparr>) (Suc (Suc 0))
        power_on) =
     Some (''-2147483648:-1:'' @ [NUL]) \<and>
   length (''-2147483648:-1:'' @ [NUL]) = 16"
proof -
  have t: "time_text \<lparr>hour = 0x80000000, minute = - 1, second = 999999\<rparr> = ''-2147483648:-1:999999''"
    by (simp add: time_text_def conv_d_def dec_digits.simps digit_char_def)
  show ?thesis
    using snprintf_never_overflows [OF steady_board_simps(1) power_on_simps(1,2),
        of "\<lparr>hour = 0x80000000, minute = - 1, second = 999999\<rparr>" 0]
    by (auto simp: steady_board_simps power_on_simps t snprintf_stored_def power_on_def)
qed

subsection \<open>C10\<close>

text \<open>
  Claim C10. After a successful \<^verbatim>\<open>setup()\<close> and any number \<open>n\<close> of iterations of
  \<^verbatim>\<open>loop()\<close>, \<^verbatim>\<open>clock_label\<close> is the handle of the one label \<^verbatim>\<open>setup()\<close> created, that
  label is the only widget of the screen, with the font and the centring \<^verbatim>\<open>setup()\<close>
  gave it; its text is \<^verbatim>\<open>Starting\<close> followed by the ellipsis (the bytes E2 80 A6) before
  the first iteration and the formatted time of the last reading afterwards, which is
  never that text, so that the label is given it exactly once; and of all the calls made,
  the only ones that delete or create widgets are the one \<^verbatim>\<open>lv_obj_clean\<close> and the one
  \<^verbatim>\<open>lv_label_create\<close> of \<^verbatim>\<open>setup()\<close>.
\<close>

theorem clock_label_single_widget:
  assumes "begin_ok hw" and "control s0 = In_setup" and "length (buf s0) = 16"
  shows "\<exists>s. run hw (Suc n) s0 = Some s \<and>
     clock_label s = Some (lv_next s0) \<and>
     screen s = [(lv_next s0,
        \<lparr>label_text = (if n = 0 then ''Starting'' @ [CHR 0xE2, CHR 0x80, CHR 0xA6]
                        else take 15 (time_text (rtc_time hw (rtc_reads s0 + n - 1)))),
         label_font = lv_font_montserrat_28, label_centered = True\<rparr>)] \<and>
     filter is_widget_lifecycle (drop (length (trace s0)) (trace s)) =
       [Lv_obj_clean, Lv_label_create (lv_next s0)] \<and>
     filter (\<lambda>e. e = Lv_label_set_text (lv_next s0) (''Starting'' @ [CHR 0xE2, CHR 0x80, CHR 0xA6]))
       (drop (length (trace s0)) (trace s)) =
       [Lv_label_set_text (lv_next s0) (''Starting'' @ [CHR 0xE2, CHR 0x80, CHR 0xA6])] \<and>
     take 15 (time_text (rtc_time hw (rtc_reads s0 + n))) \<noteq>
       ''Starting'' @ [CHR 0xE2, CHR 0x80, CHR 0xA6]"
proof -
  from run_loop [OF assms, of n] obtain s where s: "run hw (Suc n) s0 = Some s"
    "clock_label s = Some (lv_next s0)"
    "screen s = [(lv_next s0,
        \<lparr>label_text = (if n = 0 then placeholder
                        else take 15 (time_text (rtc_time hw (rtc_reads s0 + n - 1)))),
         label_font = lv_font_montserrat_28, label_centered = True\<rparr>)]"
    "trace s = trace s0 @
       [Serial_begin 115200, Serial_println ''T-Watch S3 (PlatformIO) boot'', Watch_begin] @
       (if psram_found hw then [Serial_println ''PSRAM OK''] else []) @
       (if motor_present hw then [Motor_onec 30] else []) @
       [Lv_obj_clean, Lv_label_create (lv_next s0),
        Lv_obj_set_style_text_font (lv_next s0) lv_font_montserrat_28,
        Lv_obj_center (lv_next s0),
        Lv_label_set_text (lv_next s0) placeholder] @
       concat (map (\<lambda>k. [Rtc_getDateTime (rtc_time hw k), Snprintf,
                          Lv_label_set_text (lv_next s0) (take 15 (time_text (rtc_time hw k))),
                          Lv_timer_handler, Delay 1000])
                   [rtc_reads s0 ..< rtc_reads s0 + n])"
    by blast
  have lc: "filter is_widget_lifecycle (drop (length (trace s0)) (trace s)) =
       [Lv_obj_clean, Lv_label_create (lv_next s0)]"
    unfolding s(4) by (simp add: filter_lifecycle_iterations)
  have it: "filter (\<lambda>e. e = Lv_label_set_text (lv_next s0) placeholder)
       (concat (map (\<lambda>k. [Rtc_getDateTime (rtc_time hw k), Snprintf,
                          Lv_label_set_text (lv_next s0) (take 15 (time_text (rtc_time hw k))),
                          Lv_timer_handler, Delay 1000]) ks)) = []" for ks
    by (induction ks) (simp_all add: time_text_not_placeholder)
  have once: "filter (\<lambda>e. e = Lv_label_set_text (lv_next s0) placeholder)
       (drop (length (trace s0)) (trace s)) = [Lv_label_set_text (lv_next s0) placeholder]"
    unfolding s(4) by (simp add: it)
  from s(1-3) lc once time_text_not_placeholder [of "rtc_time hw (rtc_reads s0 + n)"]
  show ?thesis
    unfolding placeholder_def by blast
qed

theorem clock_label_single_widget_witness:
  "begin_ok \<lparr>begin_ok = True, psram_found = False, motor_present = False,
              motor_pulse_ok = False,
              rtc_time = (\<lambda>k. \<lparr>hour = 7, minute = 8, second = 9\<rparr>)\<rparr> \<and>
   control power_on = In_setup \<and> length (buf power_on) = 16 \<and>
   map_option clock_label
     (run \<lparr>begin_ok = True, psram_found = False, motor_present = False,
           motor_pulse_ok = False,
           rtc_time = (\<lambda>k. \<lparr>hour = 7, minute = 8, second = 9\<rparr>)\<rparr> (Suc 0) power_on) =
     Some (Some 0) \<and>
   map_option screen
     (run \<lparr>begin_ok = True, psram_found = False, motor_present = False,
           motor_pulse_ok = False,
           rtc_time = (\<lambda>k. \<lparr>hour = 7, minute = 8, second = 9\<rparr>)\<rparr> (Suc 0) power_on) =
     Some [(0, \<lparr>label_text = ''Starting'' @ [CHR 0xE2, CHR 0x80, CHR 0xA6],
                label_font = lv_font_montserrat_28, label_centered = True\<rparr>)] \<and>
   map_option clock_label
     (run \<lparr>begin_ok = True, psram_found = False, motor_present = False,
           motor_pulse_ok = False,
           rtc_time = (\<lambda>k. \<lparr>hour = 7, minute = 8, second = 9\<rparr>)\<rparr> (Suc (Suc 0)) power_on) =
     Some (Some 0) \<and>
   map_option screen
     (run \<lparr>begin_ok = True, psram_found = False, motor_present = False,
           motor_pulse_ok = False,
           rtc_time = (\<lambda>k. \<lparr>hour = 7, minute = 8, second = 9\<rparr>)\<rparr> (Suc (Suc 0)) power_on) =
     Some [(0, \<lparr>label_text = ''07:08:09'', label_font = lv_font_montserrat_28,
                label_centered = True\<rparr>)]"
proof -
  have b: "begin_ok \<lparr>begin_ok = True, psram_found = False, motor_present = False,
              motor_pulse_ok = False,
              rtc_time = (\<lambda>k. \<lparr>hour = 7, minute = 8, second = 9\<rparr>)\<rparr>"
    by simp
  have c: "control power_on = In_setup" and l: "length (buf power_on) = 16"
    by (simp_all add: power_on_def)
  have t: "time_text \<lparr>hour = 7, minute = 8, second = 9\<rparr> = ''07:08:09''"
    by (simp add: time_text_def conv_d_02_in_range digit_char_def)
  show ?thesis
    using clock_label_single_widget [OF b c l, of "Suc 0"] c l
    by (simp add: t power_on_def tick_def setup_fw_success loop_step lv_modify_def placeholder_def)
qed

end
